theory Spec2Isabelle
  imports Complex_Main "HOL-Library.AList" "HOL-Library.Sublist"
begin

section \<open>Data model\<close>


text \<open>
  The exception classes that the code raises or catches. Every constructor is a subclass
  of Python's \<^verbatim>\<open>Exception\<close>; \<^verbatim>\<open>ReqTimeout\<close>, \<^verbatim>\<open>ReqConnectionError\<close> and \<^verbatim>\<open>ReqException\<close>
  are \<^verbatim>\<open>requests.exceptions.Timeout\<close>, \<^verbatim>\<open>ConnectionError\<close> and any other
  \<^verbatim>\<open>RequestException\<close>; \<^verbatim>\<open>PwTimeoutError\<close> and \<^verbatim>\<open>PwError\<close> are Playwright's \<^verbatim>\<open>TimeoutError\<close>
  and any other Playwright \<^verbatim>\<open>Error\<close>; \<^verbatim>\<open>JSONDecodeError\<close> is a subclass of \<^verbatim>\<open>ValueError\<close>.
\<close>

datatype exn =
    ReqTimeout | ReqConnectionError | ReqException
  | PwTimeoutError | PwError
  | ValueError | JSONDecodeError | TypeError | AttributeError | OSError | OtherException

definition is_ValueError :: "exn \<Rightarrow> bool" where
  "is_ValueError e = (e = ValueError \<or> e = JSONDecodeError)"

text \<open>
  A value produced by \<^verbatim>\<open>json.load\<close>. An object is the list of its items in insertion
  order. Python's \<^verbatim>\<open>int\<close> and \<^verbatim>\<open>float\<close> are both idealised as a real number (no
  rounding, no NaN, no infinities).
\<close>

datatype json =
    JNull | JBool bool | JNum real | JStr string | JArr "json list" | JObj "(string \<times> json) list"

text \<open>
  A naive \<^verbatim>\<open>datetime\<close> is its number of microseconds on the time line (the resolution
  of Python's \<^verbatim>\<open>datetime\<close>); \<^verbatim>\<open>timedelta.total_seconds()\<close> turns a difference into seconds.
  A \<^verbatim>\<open>datetime\<close> with a UTC offset, which \<^verbatim>\<open>fromisoformat\<close> returns for a text that
  carries one, is not modelled.
\<close>

type_synonym datetime = int

definition total_seconds :: "int \<Rightarrow> real" where
  "total_seconds d = real_of_int d / 1000000"

definition seconds :: "int \<Rightarrow> int" where
  "seconds n = n * 1000000"

text \<open>
  The \<^verbatim>\<open>reset_time\<close> member of a limit entry: the code tests it with
  \<^verbatim>\<open>isinstance(reset_time, str)\<close> and \<^verbatim>\<open>isinstance(..., datetime)\<close>, so both shapes are kept.
\<close>

datatype reset_val = RDate datetime | RText string

record limit_data =
  count :: json
  reset_time :: reset_val

text \<open>The backing file \<^verbatim>\<open>~/.navarro_rate_limits.json\<close>: absent, not parseable as JSON
  (which includes an empty or truncated file), or holding a JSON document.\<close>

datatype store_file = Missing | Garbage | Parsed json

text \<open>What happens to a write of the backing file: it succeeds, \<^verbatim>\<open>open\<close> raises and
  leaves the file alone, or the file is truncated and the write then raises.\<close>

datatype write_mode = Writable | ReadOnly | DiskFull

text \<open>
  The environment of one run: the wall clock (its \<open>k\<close>-th reading by \<^verbatim>\<open>datetime.now()\<close>),
  the behaviour of the file system at the \<open>k\<close>-th write, and the library functions
  \<^verbatim>\<open>datetime.fromisoformat\<close>, \<^verbatim>\<open>datetime.isoformat\<close> and \<^verbatim>\<open>int\<close>, which are not part of
  the repository (\<^verbatim>\<open>int\<close> of a string returns an integer or raises \<^verbatim>\<open>ValueError\<close>, which
  is the value \<open>None\<close> here).
\<close>

record env =
  clock :: "nat \<Rightarrow> datetime"
  wmode :: "nat \<Rightarrow> write_mode"
  fromisoformat :: "string \<Rightarrow> exn + datetime"
  isoformat :: "datetime \<Rightarrow> string"
  py_int :: "string \<Rightarrow> int option"

text \<open>
  The state: the three dictionaries of the \<^verbatim>\<open>RateLimiter\<close> object (each a Python dict,
  that is an association list in insertion order), the backing file, the number of clock
  readings and of file writes made so far, and a trace of the calls of
  \<^verbatim>\<open>record_request\<close> (the trace is not in the source; it only observes the calls).
\<close>

record world =
  limits :: "(string \<times> limit_data) list"
  delays :: "(string \<times> json) list"
  last_request :: "(string \<times> datetime) list"
  disk :: store_file
  reads :: nat
  writes :: nat
  calls :: "(string \<times> bool) list"

section \<open>RateLimiter\<close>

definition now :: "env \<Rightarrow> world \<Rightarrow> datetime \<times> world" where
  "now E w = (clock E (reads w), w\<lparr>reads := Suc (reads w)\<rparr>)"

text \<open>Reading a \<^verbatim>\<open>defaultdict\<close> at a missing key stores the default and returns it; the
  defaults of \<^verbatim>\<open>limits\<close> and \<^verbatim>\<open>last_request\<close> read the clock at that moment.\<close>

definition limits_getitem :: "env \<Rightarrow> string \<Rightarrow> world \<Rightarrow> limit_data \<times> world" where
  "limits_getitem E p w =
     (case map_of (limits w) p of
        Some d \<Rightarrow> (d, w)
      | None \<Rightarrow>
          (let (t, w1) = now E w;
               d = \<lparr>count = JNum 0, reset_time = RDate t\<rparr>
           in (d, w1\<lparr>limits := AList.update p d (limits w1)\<rparr>)))"

definition delays_getitem :: "string \<Rightarrow> world \<Rightarrow> json \<times> world" where
  "delays_getitem p w =
     (case map_of (delays w) p of
        Some v \<Rightarrow> (v, w)
      | None \<Rightarrow> (JNum 0.5, w\<lparr>delays := AList.update p (JNum 0.5) (delays w)\<rparr>))"

definition last_request_getitem :: "env \<Rightarrow> string \<Rightarrow> world \<Rightarrow> datetime \<times> world" where
  "last_request_getitem E p w =
     (case map_of (last_request w) p of
        Some t \<Rightarrow> (t, w)
      | None \<Rightarrow>
          (let (t, w1) = now E w
           in (t, w1\<lparr>last_request := AList.update p t (last_request w1)\<rparr>)))"

text \<open>
  The arithmetic and the comparisons of \<^verbatim>\<open>should_wait\<close> and \<^verbatim>\<open>record_request\<close> accept a
  number or a \<^verbatim>\<open>bool\<close> (\<^verbatim>\<open>True\<close> is 1); on \<^verbatim>\<open>None\<close>, a string, a list or a dict one of
  \<^verbatim>\<open>x * 2\<close>, \<^verbatim>\<open>min(x * 2, 30)\<close>, \<^verbatim>\<open>x * 0.9\<close> or \<^verbatim>\<open>t < x\<close> raises \<^verbatim>\<open>TypeError\<close>.
\<close>

fun as_number :: "json \<Rightarrow> real option" where
  "as_number (JNum r) = Some r"
| "as_number (JBool b) = Some (if b then 1 else 0)"
| "as_number _ = None"

subsection \<open>save_limits\<close>

definition encode_limit :: "env \<Rightarrow> limit_data \<Rightarrow> json" where
  "encode_limit E d =
     JObj [(''count'', count d),
           (''reset_time'', (case reset_time d of RDate t \<Rightarrow> JStr (isoformat E t) | RText s \<Rightarrow> JStr s))]"

definition limits_to_save :: "env \<Rightarrow> world \<Rightarrow> (string \<times> json) list" where
  "limits_to_save E w = map (\<lambda>(p, d). (p, encode_limit E d)) (limits w)"

text \<open>The body of the \<^verbatim>\<open>try\<close> block of \<^verbatim>\<open>save_limits\<close>.\<close>

definition save_limits_body :: "env \<Rightarrow> world \<Rightarrow> (exn + unit) \<times> world" where
  "save_limits_body E w =
     (let doc = JObj [(''limits'', JObj (limits_to_save E w)), (''delays'', JObj (delays w))];
          w1 = w\<lparr>writes := Suc (writes w)\<rparr>
      in case wmode E (writes w) of
           Writable \<Rightarrow> (Inr (), w1\<lparr>disk := Parsed doc\<rparr>)
         | ReadOnly \<Rightarrow> (Inl OSError, w1)
         | DiskFull \<Rightarrow> (Inl OSError, w1\<lparr>disk := Garbage\<rparr>))"

text \<open>\<^verbatim>\<open>except Exception: pass\<close>.\<close>

definition save_limits :: "env \<Rightarrow> world \<Rightarrow> (exn + unit) \<times> world" where
  "save_limits E w = (case save_limits_body E w of (r, w1) \<Rightarrow> (Inr (), w1))"

subsection \<open>record_request\<close>

definition record_request :: "env \<Rightarrow> string \<Rightarrow> bool \<Rightarrow> world \<Rightarrow> (exn + unit) \<times> world" where
  "record_request E p was_rate_limited w =
     (let (t, w1) = now E (w\<lparr>calls := calls w @ [(p, was_rate_limited)]\<rparr>);
          w2 = w1\<lparr>last_request := AList.update p t (last_request w1)\<rparr>;
          (v, w3) = delays_getitem p w2
      in case as_number v of
           None \<Rightarrow> (Inl TypeError, w3)
         | Some d \<Rightarrow>
             if was_rate_limited then
               (let w4 = w3\<lparr>delays := AList.update p (JNum (min (d * 2) 30)) (delays w3)\<rparr>;
                    (l, w5) = limits_getitem E p w4;
                    w6 = w5\<lparr>limits :=
                              AList.update p (l\<lparr>reset_time := RDate (t + seconds 60)\<rparr>) (limits w5)\<rparr>
                in save_limits E w6)
             else
               save_limits E (w3\<lparr>delays := AList.update p (JNum (max (d * 0.9) 0.5)) (delays w3)\<rparr>))"

subsection \<open>should_wait\<close>

text \<open>The conversion of a textual \<^verbatim>\<open>reset_time\<close>:
  \<^verbatim>\<open>try: datetime.fromisoformat(reset_time) except (ValueError, TypeError): now\<close>.\<close>

definition reset_as_datetime :: "env \<Rightarrow> datetime \<Rightarrow> reset_val \<Rightarrow> exn + datetime" where
  "reset_as_datetime E t rv =
     (case rv of
        RDate r \<Rightarrow> Inr r
      | RText s \<Rightarrow>
          (case fromisoformat E s of
             Inr r \<Rightarrow> Inr r
           | Inl e \<Rightarrow> if is_ValueError e \<or> e = TypeError then Inr t else Inl e))"

definition should_wait :: "env \<Rightarrow> string \<Rightarrow> world \<Rightarrow> (exn + real) \<times> world" where
  "should_wait E p w =
     (let (t, w1) = now E w;
          (l, w2) = limits_getitem E p w1
      in case reset_as_datetime E t (reset_time l) of
           Inl e \<Rightarrow> (Inl e, w2)
         | Inr rt \<Rightarrow>
             if rt > t then (Inr (total_seconds (rt - t)), w2)
             else
               (let (lr, w3) = last_request_getitem E p w2;
                    time_since_last = total_seconds (t - lr);
                    (v, w4) = delays_getitem p w3
                in case as_number v of
                     None \<Rightarrow> (Inl TypeError, w4)
                   | Some d \<Rightarrow>
                       if time_since_last < d then (Inr (d - time_since_last), w4)
                       else (Inr 0, w4)))"

subsection \<open>load_limits and the constructor\<close>

text \<open>\<^verbatim>\<open>x.get(key, default)\<close> and \<^verbatim>\<open>x.items()\<close> on a value read from JSON: only a dict
  has these attributes.\<close>

definition json_get :: "json \<Rightarrow> string \<Rightarrow> json \<Rightarrow> exn + json" where
  "json_get x k dflt =
     (case x of
        JObj kvs \<Rightarrow> Inr (case map_of kvs k of Some v \<Rightarrow> v | None \<Rightarrow> dflt)
      | _ \<Rightarrow> Inl AttributeError)"

definition json_items :: "json \<Rightarrow> exn + (string \<times> json) list" where
  "json_items x = (case x of JObj kvs \<Rightarrow> Inr kvs | _ \<Rightarrow> Inl AttributeError)"

text \<open>\<^verbatim>\<open>datetime.fromisoformat(x)\<close> on a value read from JSON: a non-string argument
  raises \<^verbatim>\<open>TypeError\<close>.\<close>

definition fromisoformat_json :: "env \<Rightarrow> json \<Rightarrow> exn + datetime" where
  "fromisoformat_json E x = (case x of JStr s \<Rightarrow> fromisoformat E s | _ \<Rightarrow> Inl TypeError)"

text \<open>
  One iteration of the loop over the saved limits. The attribute \<^verbatim>\<open>limit_data.get\<close> is
  looked up before its arguments are evaluated, so a non-dict entry raises
  \<^verbatim>\<open>AttributeError\<close> (which the inner handler does not catch) without reading the clock;
  for a dict the default argument \<^verbatim>\<open>datetime.now().isoformat()\<close> is always evaluated.
\<close>

definition load_entry :: "env \<Rightarrow> string \<Rightarrow> json \<Rightarrow> world \<Rightarrow> (exn + unit) \<times> world" where
  "load_entry E platform limit_data w =
     (case limit_data of
        JObj kvs \<Rightarrow>
          (let (t0, w1) = now E w;
               arg = (case map_of kvs ''reset_time'' of Some v \<Rightarrow> v | None \<Rightarrow> JStr (isoformat E t0));
               cnt = (case map_of kvs ''count'' of Some c \<Rightarrow> c | None \<Rightarrow> JNum 0)
           in case fromisoformat_json E arg of
                Inr rt \<Rightarrow>
                  (Inr (), w1\<lparr>limits :=
                     AList.update platform \<lparr>count = cnt, reset_time = RDate rt\<rparr> (limits w1)\<rparr>)
              | Inl e \<Rightarrow>
                  if is_ValueError e \<or> e = TypeError then
                    (let (t1, w2) = now E w1
                     in (Inr (), w2\<lparr>limits :=
                           AList.update platform \<lparr>count = cnt, reset_time = RDate t1\<rparr> (limits w2)\<rparr>))
                  else (Inl e, w1))
      | _ \<Rightarrow> (Inl AttributeError, w))"

fun load_entries :: "env \<Rightarrow> (string \<times> json) list \<Rightarrow> world \<Rightarrow> (exn + unit) \<times> world" where
  "load_entries E [] w = (Inr (), w)"
| "load_entries E ((platform, limit_data) # rest) w =
     (case load_entry E platform limit_data w of
        (Inl e, w1) \<Rightarrow> (Inl e, w1)
      | (Inr u, w1) \<Rightarrow> load_entries E rest w1)"

text \<open>
  \<^verbatim>\<open>self.delays.update(x)\<close> with \<open>x\<close> read from JSON. A dict is merged item by item. Of
  the other values only the ones that make \<^verbatim>\<open>update\<close> raise are covered (\<^verbatim>\<open>None\<close>, a
  number, a \<^verbatim>\<open>bool\<close>, a non-empty string); a JSON array, which \<^verbatim>\<open>update\<close> reads as a
  sequence of key/value pairs, is treated like them. A store written by \<^verbatim>\<open>save_limits\<close>
  always holds a dict here.
\<close>

definition update_delays :: "json \<Rightarrow> world \<Rightarrow> (exn + unit) \<times> world" where
  "update_delays x w =
     (case x of
        JObj kvs \<Rightarrow> (Inr (), w\<lparr>delays := fold (\<lambda>(k, v). AList.update k v) kvs (delays w)\<rparr>)
      | _ \<Rightarrow> (Inl TypeError, w))"

text \<open>The body of the \<^verbatim>\<open>try\<close> block of \<^verbatim>\<open>load_limits\<close>, given the parsed document.\<close>

definition load_document :: "env \<Rightarrow> json \<Rightarrow> world \<Rightarrow> (exn + unit) \<times> world" where
  "load_document E saved_data w =
     (case json_get saved_data ''limits'' (JObj []) of
        Inl e \<Rightarrow> (Inl e, w)
      | Inr ls \<Rightarrow>
          (case json_items ls of
             Inl e \<Rightarrow> (Inl e, w)
           | Inr items \<Rightarrow>
               (case load_entries E items w of
                  (Inl e, w1) \<Rightarrow> (Inl e, w1)
                | (Inr u, w1) \<Rightarrow>
                    (case json_get saved_data ''delays'' (JObj []) of
                       Inl e \<Rightarrow> (Inl e, w1)
                     | Inr ds \<Rightarrow> update_delays ds w1))))"

definition load_limits_body :: "env \<Rightarrow> world \<Rightarrow> (exn + unit) \<times> world" where
  "load_limits_body E w =
     (case disk w of
        Garbage \<Rightarrow> (Inl JSONDecodeError, w)
      | Parsed saved_data \<Rightarrow> load_document E saved_data w
      | Missing \<Rightarrow> (Inr (), w))"

text \<open>\<^verbatim>\<open>if RATE_LIMIT_FILE.exists(): try: ... except Exception: pass\<close>.\<close>

definition load_limits :: "env \<Rightarrow> world \<Rightarrow> (exn + unit) \<times> world" where
  "load_limits E w =
     (case disk w of
        Missing \<Rightarrow> (Inr (), w)
      | _ \<Rightarrow> (case load_limits_body E w of (r, w1) \<Rightarrow> (Inr (), w1)))"

text \<open>\<^verbatim>\<open>RateLimiter.__init__\<close>: three empty \<^verbatim>\<open>defaultdict\<close>s, then \<^verbatim>\<open>load_limits\<close>. The
  backing file and the clock are those of the world the process starts in.\<close>

definition RateLimiter_init :: "env \<Rightarrow> world \<Rightarrow> (exn + unit) \<times> world" where
  "RateLimiter_init E w = load_limits E (w\<lparr>limits := [], delays := [], last_request := []\<rparr>)"

text \<open>A world with no backing file, before anything has run.\<close>

definition fresh :: world where
  "fresh = \<lparr>limits = [], delays = [], last_request = [], disk = Missing,
            reads = 0, writes = 0, calls = []\<rparr>"

text \<open>\<^verbatim>\<open>delays[s]\<close> as a later read of the \<^verbatim>\<open>defaultdict\<close> sees it.\<close>

definition delay_of :: "world \<Rightarrow> string \<Rightarrow> json" where
  "delay_of w s = (case map_of (delays w) s of Some v \<Rightarrow> v | None \<Rightarrow> JNum 0.5)"


section \<open>Strings\<close>

text \<open>\<^verbatim>\<open>str.lower()\<close> on ASCII text, and \<^verbatim>\<open>needle in haystack\<close> on strings.\<close>

definition lower_char :: "char \<Rightarrow> char" where
  "lower_char c =
     (case map_of (zip ''ABCDEFGHIJKLMNOPQRSTUVWXYZ'' ''abcdefghijklmnopqrstuvwxyz'') c of
        Some l \<Rightarrow> l
      | None \<Rightarrow> c)"

definition lower :: "string \<Rightarrow> string" where
  "lower s = map lower_char s"

fun contains :: "string \<Rightarrow> string \<Rightarrow> bool" where
  "contains needle [] = (needle = [])"
| "contains needle (c # cs) = (prefix needle (c # cs) \<or> contains needle cs)"

section \<open>Outcome classification helper\<close>

text \<open>A \<^verbatim>\<open>requests.Response\<close>; its headers are a case-insensitive dict.\<close>

text \<open>(The member \<^verbatim>\<open>text\<close> is written \<open>text'\<close>.)\<close>

record response =
  status_code :: int
  headers :: "(string \<times> string) list"
  text' :: string

definition headers_get :: "response \<Rightarrow> string \<Rightarrow> string option" where
  "headers_get r h = map_of (map (\<lambda>(k, v). (lower k, v)) (headers r)) (lower h)"

definition remaining_headers :: "string list" where
  "remaining_headers = [''x-ratelimit-remaining'', ''x-rate-limit-remaining'']"

definition rate_limit_patterns :: "string list" where
  "rate_limit_patterns = [''rate limit exceeded'', ''too many requests'', ''429 too many requests'']"

text \<open>The loop over \<^verbatim>\<open>remaining_headers\<close>, with its \<^verbatim>\<open>try: int(...) except ValueError: pass\<close>.\<close>

fun remaining_loop :: "env \<Rightarrow> response \<Rightarrow> string list \<Rightarrow> bool" where
  "remaining_loop E r [] = False"
| "remaining_loop E r (header # rest) =
     (case headers_get r header of
        None \<Rightarrow> remaining_loop E r rest
      | Some v \<Rightarrow>
          (case py_int E v of
             None \<Rightarrow> remaining_loop E r rest
           | Some remaining \<Rightarrow> if remaining = 0 then True else remaining_loop E r rest))"

text \<open>\<^verbatim>\<open>check_rate_limit\<close> of \<^verbatim>\<open>navarro.py\<close>.\<close>

definition check_rate_limit :: "env \<Rightarrow> response \<Rightarrow> bool" where
  "check_rate_limit E r =
     (if status_code r = 429 then True
      else if headers_get r ''retry-after'' \<noteq> None then True
      else if remaining_loop E r remaining_headers then True
      else list_ex (\<lambda>pattern. contains pattern (lower (text' r))) rate_limit_patterns)"

text \<open>\<^verbatim>\<open>check_rate_limit\<close> of \<^verbatim>\<open>navarro_pw.py\<close>, which is given the page content only.\<close>

definition rate_limit_patterns_pw :: "string list" where
  "rate_limit_patterns_pw =
     [''rate limit exceeded'', ''too many requests'', ''429 too many requests'',
      ''you have triggered a rate limit'', ''please wait before retrying'',
      ''retry later'', ''temporarily blocked'']"

definition check_rate_limit_pw :: "string \<Rightarrow> bool" where
  "check_rate_limit_pw content =
     (if content = [] then False
      else list_ex (\<lambda>pattern. contains pattern (lower content)) rate_limit_patterns_pw)"

section \<open>Probes\<close>











section \<open>Dispatcher\<close>






section \<open>A concrete environment\<close>

text \<open>
  The instances below run the functions in this environment: the clock advances by one
  second per reading and starts at the epoch, every write succeeds, and the library
  functions are given on the few strings that the instances use.
\<close>

definition env0 :: env where
  "env0 = \<lparr>clock = (\<lambda>k. 1000000 * int k),
           wmode = (\<lambda>k. Writable),
           fromisoformat = (\<lambda>s. if s = ''1970-01-01T00:00:00'' then Inr 0
                                 else if s = ''1970-01-01T00:01:00'' then Inr 60000000
                                 else Inl ValueError),
           isoformat = (\<lambda>t. if t = 0 then ''1970-01-01T00:00:00''
                             else if t = 60000000 then ''1970-01-01T00:01:00''
                             else ''1970-01-01T00:00:01''),
           py_int = (\<lambda>s. if s = ''0'' then Some 0 else if s = ''5'' then Some 5 else None)\<rparr>"

text \<open>A state with entries for two services.\<close>

definition w_xy :: world where
  "w_xy = fresh\<lparr>limits := [(''y'', \<lparr>count = JNum 3, reset_time = RDate 60000000\<rparr>)],
               delays := [(''x'', JNum 4), (''y'', JNum 8)],
               last_request := [(''y'', 0)]\<rparr>"

section \<open>The delay invariant\<close>

text \<open>The invariant of the claims: every service's delay is a number between 0.5 and 30.\<close>

definition delay_in_range :: "json \<Rightarrow> bool" where
  "delay_in_range v = (case as_number v of None \<Rightarrow> False | Some d \<Rightarrow> 0.5 \<le> d \<and> d \<le> 30)"

definition delay_inv :: "world \<Rightarrow> bool" where
  "delay_inv w = (\<forall>s. delay_in_range (delay_of w s))"

text \<open>A stored document whose \<^verbatim>\<open>delays\<close> member, if it has one, is an object of numbers
  between 0.5 and 30.\<close>

definition stored_delays_in_range :: "json \<Rightarrow> bool" where
  "stored_delays_in_range j =
     (case j of
        JObj members \<Rightarrow>
          (case map_of members ''delays'' of
             None \<Rightarrow> True
           | Some (JObj ds) \<Rightarrow> list_all (\<lambda>(k, v). delay_in_range v) ds
           | Some _ \<Rightarrow> False)
      | _ \<Rightarrow> True)"

text \<open>A sequence of calls of \<^verbatim>\<open>record_request\<close>, each with its service and its flag.\<close>

definition record_requests :: "env \<Rightarrow> (string \<times> bool) list \<Rightarrow> world \<Rightarrow> world" where
  "record_requests E cs w = fold (\<lambda>(s, b) w. snd (record_request E s b w)) cs w"

text \<open>A stored document with a delay of 100 seconds, and one with stored state for two
  services.\<close>

definition store_slow :: json where
  "store_slow = JObj [(''limits'', JObj []), (''delays'', JObj [(''x'', JNum 100)])]"

definition store_ok :: json where
  "store_ok =
     JObj [(''limits'',
            JObj [(''x'', JObj [(''count'', JNum 0), (''reset_time'', JStr ''1970-01-01T00:01:00'')]),
                  (''y'', JObj [(''count'', JNum 2), (''reset_time'', JStr ''not a date'')])]),
           (''delays'', JObj [(''x'', JNum 2), (''y'', JNum 0.5)])]"

section \<open>The classification helper as the specification words it\<close>

text \<open>
  Following the words of the specification: the interaction was throttled if the status
  is 429, or a retry header is present, or a remaining-quota header reads zero, or the
  body contains one of the phrases, compared without regard to case. The names of the
  headers and the phrases are parameters.
\<close>

definition spec_throttled ::
  "env \<Rightarrow> string list \<Rightarrow> string list \<Rightarrow> string list \<Rightarrow> response \<Rightarrow> bool" where
  "spec_throttled E retry_headers quota_headers phrases r =
     (status_code r = 429
      \<or> list_ex (\<lambda>h. headers_get r h \<noteq> None) retry_headers
      \<or> list_ex (\<lambda>h. case headers_get r h of None \<Rightarrow> False | Some v \<Rightarrow> py_int E v = Some 0)
            quota_headers
      \<or> list_ex (\<lambda>p. contains p (lower (text' r))) phrases)"

text \<open>A response with status 429 and a retry header whose body names no throttling, and
  an ordinary page that does.\<close>

definition r429 :: response where
  "r429 = \<lparr>status_code = 429, headers = [(''Retry-After'', ''5'')], text' = ''Slow down''\<rparr>"

definition r200 :: response where
  "r200 = \<lparr>status_code = 200, headers = [(''X-RateLimit-Remaining'', ''5'')],
           text' = ''Too Many Requests''\<rparr>"

section \<open>Concrete network behaviour\<close>





section \<open>Well-typed limiter states\<close>









section \<open>Persisted state\<close>





section \<open>Properties of record_request\<close>

lemmas rr_defs = record_request_def now_def delays_getitem_def limits_getitem_def
  save_limits_def save_limits_body_def Let_def delay_of_def

lemma rr_returns:
  "as_number (delay_of w s) = Some d \<Longrightarrow> fst (record_request E s b w) = Inr ()"
  by (auto simp: rr_defs update_conv' split: option.splits write_mode.splits)

lemma rr_last_request:
  "map_of (last_request (snd (record_request E s b w)))
     = (map_of (last_request w))(s \<mapsto> clock E (reads w))"
  by (auto simp: rr_defs update_conv' split: option.splits write_mode.splits)

lemma rr_delay_True:
  "as_number (delay_of w s) = Some d \<Longrightarrow>
   map_of (delays (snd (record_request E s True w)))
     = (map_of (delays w))(s \<mapsto> JNum (min (d * 2) 30))"
  by (auto simp: rr_defs update_conv' split: option.splits write_mode.splits)

lemma rr_delay_False:
  "as_number (delay_of w s) = Some d \<Longrightarrow>
   map_of (delays (snd (record_request E s False w)))
     = (map_of (delays w))(s \<mapsto> JNum (max (d * 0.9) 0.5))"
  by (auto simp: rr_defs update_conv' split: option.splits write_mode.splits)

lemma rr_limits_True:
  "as_number (delay_of w s) = Some d \<Longrightarrow>
   map_of (limits (snd (record_request E s True w))) =
     (map_of (limits w))(s \<mapsto>
        (case map_of (limits w) s of
           Some l \<Rightarrow> l\<lparr>reset_time := RDate (clock E (reads w) + seconds 60)\<rparr>
         | None \<Rightarrow> \<lparr>count = JNum 0, reset_time = RDate (clock E (reads w) + seconds 60)\<rparr>))"
  by (auto simp: rr_defs update_conv' split: option.splits write_mode.splits)

lemma rr_limits_False: "limits (snd (record_request E s False w)) = limits w"
  by (auto simp: rr_defs update_conv' split: option.splits write_mode.splits)

lemma rr_frame_delays:
  "s \<noteq> t \<Longrightarrow> map_of (delays (snd (record_request E s b w))) t = map_of (delays w) t"
  by (auto simp: rr_defs update_conv' split: option.splits write_mode.splits)

lemma rr_frame_limits:
  "s \<noteq> t \<Longrightarrow> map_of (limits (snd (record_request E s b w))) t = map_of (limits w) t"
  by (auto simp: rr_defs update_conv' split: option.splits write_mode.splits)



lemma delay_of_rr_True:
  "as_number (delay_of w s) = Some d \<Longrightarrow>
   delay_of (snd (record_request E s True w)) s = JNum (min (d * 2) 30)"
  using rr_delay_True[of w s d E] by (simp add: delay_of_def)

lemma delay_of_rr_False:
  "as_number (delay_of w s) = Some d \<Longrightarrow>
   delay_of (snd (record_request E s False w)) s = JNum (max (d * 0.9) 0.5)"
  using rr_delay_False[of w s d E] by (simp add: delay_of_def)

lemma delay_of_rr_other:
  "s \<noteq> t \<Longrightarrow> delay_of (snd (record_request E s b w)) t = delay_of w t"
  using rr_frame_delays[of s t E b w] by (simp add: delay_of_def)

lemma doubling_step: "min (min (a * 2 ^ n) 30 * 2) 30 = min (a * 2 ^ Suc n) (30::real)"
  by (simp add: min_def)

lemma delay_after_limited_calls:
  "as_number (delay_of w s) = Some d \<Longrightarrow>
   delay_of (((\<lambda>w. snd (record_request E s True w)) ^^ Suc n) w) s
     = JNum (min (d * 2 ^ Suc n) 30)"
proof (induction n)
  case 0
  then show ?case by (simp add: delay_of_rr_True)
next
  case (Suc n)
  let ?w = "((\<lambda>w. snd (record_request E s True w)) ^^ Suc n) w"
  have "as_number (delay_of ?w s) = Some (min (d * 2 ^ Suc n) 30)"
    using Suc by simp
  then have "delay_of (snd (record_request E s True ?w)) s
               = JNum (min (min (d * 2 ^ Suc n) 30 * 2) 30)"
    by (rule delay_of_rr_True)
  then show ?case
    by (simp only: funpow.simps o_apply doubling_step)
qed

section \<open>Properties of should_wait\<close>

lemma should_wait_cooldown:
  assumes "map_of (limits w) s = Some l" "reset_time l = RDate r" "clock E (reads w) < r"
  shows "fst (should_wait E s w) = Inr (total_seconds (r - clock E (reads w)))"
  using assms
  by (simp add: should_wait_def now_def limits_getitem_def reset_as_datetime_def Let_def)

lemma should_wait_first:
  assumes "map_of (limits w) s = None" "map_of (delays w) s = None"
    "map_of (last_request w) s = None"
  shows "fst (should_wait E s w) =
     (if clock E (reads w) < clock E (Suc (reads w))
      then Inr (total_seconds (clock E (Suc (reads w)) - clock E (reads w)))
      else if total_seconds (clock E (reads w) - clock E (Suc (Suc (reads w)))) < 0.5
           then Inr (0.5 - total_seconds (clock E (reads w) - clock E (Suc (Suc (reads w)))))
           else Inr 0)"
  using assms
  by (simp add: should_wait_def now_def limits_getitem_def last_request_getitem_def
       delays_getitem_def reset_as_datetime_def Let_def)

section \<open>Claims about record_request and should_wait\<close>

text \<open>
  Claim C3. In a state where the delay of service \<open>s\<close> is a number \<open>d\<close> with
  \<open>0.5 \<le> d \<le> 30\<close>, \<^verbatim>\<open>record_request(s, was_rate_limited=True)\<close> returns normally, sets
  \<open>last_request[s]\<close> to the clock reading of the call, sets the delay to \<open>min (2 d) 30\<close>
  (which is never below \<open>d\<close>, and above \<open>d\<close> unless \<open>d\<close> is already 30), and sets the
  reset time of \<open>s\<close> to that clock reading plus 60 seconds. When \<open>s\<close> has no stored delay
  (the default 0.5), one call gives the delay 1 and ten consecutive calls give exactly 30;
  a \<^verbatim>\<open>should_wait(s)\<close> that follows, reading the clock less than 60 seconds after the
  call did, returns 60 seconds minus the time elapsed between the two readings.
\<close>

theorem record_request_rate_limited:
  assumes "as_number (delay_of w s) = Some d" and "0.5 \<le> d" and "d \<le> 30"
  shows "fst (record_request E s True w) = Inr ()
       \<and> map_of (last_request (snd (record_request E s True w))) s = Some (clock E (reads w))
       \<and> delay_of (snd (record_request E s True w)) s = JNum (min (d * 2) 30)
       \<and> d \<le> min (d * 2) 30
       \<and> (d < 30 \<longrightarrow> d < min (d * 2) 30)
       \<and> (\<exists>l. map_of (limits (snd (record_request E s True w))) s = Some l
              \<and> reset_time l = RDate (clock E (reads w) + seconds 60))
       \<and> (map_of (delays w) s = None \<longrightarrow>
            delay_of (snd (record_request E s True w)) s = JNum 1
          \<and> delay_of (((\<lambda>w. snd (record_request E s True w)) ^^ 10) w) s = JNum 30)
       \<and> (\<forall>k. reads (snd (record_request E s True w)) = k
              \<and> clock E k < clock E (reads w) + seconds 60 \<longrightarrow>
            fst (should_wait E s (snd (record_request E s True w)))
              = Inr (60 - total_seconds (clock E k - clock E (reads w))))"
proof -
  let ?w' = "snd (record_request E s True w)"
  have 1: "fst (record_request E s True w) = Inr ()"
    using assms(1) by (rule rr_returns)
  have 2: "map_of (last_request ?w') s = Some (clock E (reads w))"
    by (simp add: rr_last_request)
  have 3: "delay_of ?w' s = JNum (min (d * 2) 30)"
    using assms(1) by (rule delay_of_rr_True)
  have 4: "d \<le> min (d * 2) 30" "d < 30 \<longrightarrow> d < min (d * 2) 30"
    using assms(2,3) by (auto simp: min_def)
  have 5: "\<exists>l. map_of (limits ?w') s = Some l
              \<and> reset_time l = RDate (clock E (reads w) + seconds 60)"
    using rr_limits_True[OF assms(1), of E] by (simp split: option.splits)
  have 6: "delay_of ?w' s = JNum 1
         \<and> delay_of (((\<lambda>w. snd (record_request E s True w)) ^^ 10) w) s = JNum 30"
    if "map_of (delays w) s = None"
  proof -
    from that have d: "d = 0.5" using assms(1) by (simp add: delay_of_def)
    have "delay_of (((\<lambda>w. snd (record_request E s True w)) ^^ Suc 9) w) s
            = JNum (min (d * 2 ^ Suc 9) 30)"
      using assms(1) by (rule delay_after_limited_calls)
    then show ?thesis using 3 d by (simp add: eval_nat_numeral)
  qed
  have 7: "fst (should_wait E s ?w') = Inr (60 - total_seconds (clock E k - clock E (reads w)))"
    if "reads ?w' = k \<and> clock E k < clock E (reads w) + seconds 60" for k
  proof -
    from 5 obtain l where l: "map_of (limits ?w') s = Some l"
      "reset_time l = RDate (clock E (reads w) + seconds 60)" by blast
    have "fst (should_wait E s ?w')
            = Inr (total_seconds (clock E (reads w) + seconds 60 - clock E (reads ?w')))"
      using l that by (intro should_wait_cooldown) auto
    then show ?thesis using that by (simp add: total_seconds_def seconds_def field_simps)
  qed
  show ?thesis using 1 2 3 4 5 6 7 by blast
qed

theorem record_request_rate_limited_witness:
  "as_number (delay_of fresh ''x'') = Some 0.5 \<and> (0.5::real) \<le> 0.5 \<and> (0.5::real) \<le> 30
   \<and> map_of (delays fresh) ''x'' = None
   \<and> reads (snd (record_request env0 ''x'' True fresh)) = 2
   \<and> clock env0 2 < clock env0 (reads fresh) + seconds 60
   \<and> fst (record_request env0 ''x'' True fresh) = Inr ()
   \<and> delay_of (snd (record_request env0 ''x'' True fresh)) ''x'' = JNum 1
   \<and> delay_of (((\<lambda>w. snd (record_request env0 ''x'' True w)) ^^ 10) fresh) ''x'' = JNum 30
   \<and> fst (should_wait env0 ''x'' (snd (record_request env0 ''x'' True fresh))) = Inr 58"
proof -
  have h: "as_number (delay_of fresh ''x'') = Some 0.5"
    by (simp add: delay_of_def fresh_def)
  have r: "reads (snd (record_request env0 ''x'' True fresh)) = 2"
    by (simp add: rr_defs fresh_def env0_def)
  have c: "clock env0 2 < clock env0 (reads fresh) + seconds 60"
    by (simp add: env0_def fresh_def seconds_def)
  have n: "map_of (delays fresh) ''x'' = None" by (simp add: fresh_def)
  have t: "60 - total_seconds (clock env0 2 - clock env0 (reads fresh)) = 58"
    by (simp add: env0_def fresh_def total_seconds_def)
  show ?thesis
    using record_request_rate_limited[OF h, of env0] h r c n t by simp
qed

text \<open>
  Claim C5, as amended. For a service \<open>s\<close> that has no entry in any of the three
  dictionaries, and a clock that never goes back, the first \<^verbatim>\<open>should_wait(s)\<close> returns
  a strictly positive wait: the defaults are created after the function has read the
  clock, so either the default reset time is later than that reading and the wait is
  their difference, or the three readings coincide up to the second one and the wait is
  the default delay 0.5 plus the time that passed until the default of \<open>last_request\<close>
  was created.
\<close>

theorem should_wait_first_use:
  assumes "map_of (limits w) s = None" and "map_of (delays w) s = None"
      and "map_of (last_request w) s = None"
      and "mono (clock E)"
  shows "\<exists>r. fst (should_wait E s w) = Inr r \<and> 0 < r
           \<and> (clock E (Suc (reads w)) = clock E (reads w) \<longrightarrow>
                r = 0.5 + total_seconds (clock E (Suc (Suc (reads w))) - clock E (reads w)))
           \<and> (clock E (Suc (reads w)) \<noteq> clock E (reads w) \<longrightarrow>
                r = total_seconds (clock E (Suc (reads w)) - clock E (reads w)))"
proof -
  let ?k = "reads w"
  have m1: "clock E ?k \<le> clock E (Suc ?k)" and m2: "clock E ?k \<le> clock E (Suc (Suc ?k))"
    using assms(4) by (simp_all add: monoD)
  show ?thesis
  proof (cases "clock E ?k < clock E (Suc ?k)")
    case True
    have "fst (should_wait E s w) = Inr (total_seconds (clock E (Suc ?k) - clock E ?k))"
      using should_wait_first[OF assms(1-3), of E] True by simp
    moreover have "0 < total_seconds (clock E (Suc ?k) - clock E ?k)"
      using True by (simp add: total_seconds_def)
    ultimately show ?thesis using True by simp
  next
    case False
    with m1 have eq: "clock E (Suc ?k) = clock E ?k" by simp
    have neg: "total_seconds (clock E ?k - clock E (Suc (Suc ?k))) \<le> 0"
      using m2 by (simp add: total_seconds_def)
    have "fst (should_wait E s w)
            = Inr (0.5 - total_seconds (clock E ?k - clock E (Suc (Suc ?k))))"
      using should_wait_first[OF assms(1-3), of E] eq neg by simp
    moreover have "0.5 - total_seconds (clock E ?k - clock E (Suc (Suc ?k)))
                 = 0.5 + total_seconds (clock E (Suc (Suc ?k)) - clock E ?k)"
      by (simp add: total_seconds_def field_simps)
    moreover have "0 < 0.5 - total_seconds (clock E ?k - clock E (Suc (Suc ?k)))"
      using neg by simp
    ultimately show ?thesis using eq by simp
  qed
qed

text \<open>With a clock that stands still the first \<^verbatim>\<open>should_wait\<close> of an unseen service
  returns 0.5, not 0.\<close>

theorem should_wait_first_use_counterexample:
  "fst (should_wait (env0\<lparr>clock := (\<lambda>k. 0)\<rparr>) ''x'' fresh) = Inr 0.5 \<and>
   fst (should_wait (env0\<lparr>clock := (\<lambda>k. 0)\<rparr>) ''x'' fresh) \<noteq> Inr 0"
  by (simp add: should_wait_def now_def limits_getitem_def last_request_getitem_def
       delays_getitem_def reset_as_datetime_def Let_def env0_def fresh_def total_seconds_def)

theorem should_wait_first_use_witness:
  "map_of (limits fresh) ''x'' = None \<and> map_of (delays fresh) ''x'' = None
   \<and> map_of (last_request fresh) ''x'' = None
   \<and> mono (clock env0)
   \<and> fst (should_wait env0 ''x'' fresh) = Inr 1
   \<and> mono (clock (env0\<lparr>clock := \<lambda>k. 0\<rparr>))
   \<and> fst (should_wait (env0\<lparr>clock := \<lambda>k. 0\<rparr>) ''x'' fresh) = Inr 0.5"
proof -
  let ?still = "env0\<lparr>clock := \<lambda>k. 0\<rparr>"
  have m: "mono (clock env0)"
    by (rule monoI) (simp add: env0_def)
  have m0: "mono (clock ?still)"
    by (rule monoI) simp
  have n: "map_of (limits fresh) ''x'' = None" "map_of (delays fresh) ''x'' = None"
    "map_of (last_request fresh) ''x'' = None"
    by (simp_all add: fresh_def)
  have c: "reads fresh = 0" "clock env0 0 = 0" "clock env0 (Suc 0) = 1000000"
    by (simp_all add: fresh_def env0_def)
  have ticking: "fst (should_wait env0 ''x'' fresh) = Inr 1"
    using should_wait_first_use[OF n m] c by (auto simp add: total_seconds_def)
  have still: "fst (should_wait ?still ''x'' fresh) = Inr 0.5"
    using should_wait_first_use[OF n m0] by (auto simp add: total_seconds_def)
  show ?thesis using m m0 n ticking still by simp
qed



text \<open>
  Claim C10. For distinct services \<open>s\<close> and \<open>t\<close> and either flag, \<^verbatim>\<open>record_request(s, b)\<close>
  leaves the delay, the last request and the limit entry of \<open>t\<close> as they were, whether
  it returns or raises; with the flag \<^verbatim>\<open>False\<close> it leaves the whole dictionary of limits
  unchanged, so also the reset time of \<open>s\<close> itself.
\<close>

theorem record_request_frame:
  "(s \<noteq> t \<longrightarrow>
      map_of (delays (snd (record_request E s b w))) t = map_of (delays w) t
    \<and> map_of (last_request (snd (record_request E s b w))) t = map_of (last_request w) t
    \<and> map_of (limits (snd (record_request E s b w))) t = map_of (limits w) t)
   \<and> limits (snd (record_request E s False w)) = limits w"
  by (simp add: rr_frame_delays rr_frame_limits rr_last_request rr_limits_False)

theorem record_request_frame_witness:
  "''x'' \<noteq> ''y''
   \<and> map_of (delays (snd (record_request env0 ''x'' True w_xy))) ''y'' = Some (JNum 8)
   \<and> map_of (last_request (snd (record_request env0 ''x'' True w_xy))) ''y'' = Some 0
   \<and> map_of (limits (snd (record_request env0 ''x'' True w_xy))) ''y''
       = Some \<lparr>count = JNum 3, reset_time = RDate 60000000\<rparr>
   \<and> limits (snd (record_request env0 ''x'' False w_xy)) = limits w_xy"
  using record_request_frame[of "''x''" "''y''" env0 True w_xy]
  by (simp add: w_xy_def fresh_def)

section \<open>Claims about the delay invariant\<close>

lemma load_entry_delays: "delays (snd (load_entry E p j w)) = delays w"
  by (auto simp: load_entry_def now_def Let_def split: json.splits sum.splits prod.splits)

lemma load_entries_delays: "delays (snd (load_entries E items w)) = delays w"
proof (induction items arbitrary: w)
  case Nil
  then show ?case by simp
next
  case (Cons a items)
  obtain p j where a: "a = (p, j)" by (cases a)
  show ?case
  proof (cases "load_entry E p j w")
    case (Pair r w1)
    have "delays w1 = delays w" using load_entry_delays[of E p j w] Pair by simp
    then show ?thesis using Pair a Cons[of w1] by (cases r) simp_all
  qed
qed

lemma fold_update_values:
  "list_all (\<lambda>(k, v). P v) kvs \<Longrightarrow> (\<And>k v. map_of ds k = Some v \<Longrightarrow> P v) \<Longrightarrow>
   map_of (fold (\<lambda>(k, v). AList.update k v) kvs ds) s = Some v \<Longrightarrow> P v"
proof (induction kvs arbitrary: ds)
  case Nil
  then show ?case by simp
next
  case (Cons a kvs)
  obtain k0 v0 where a: "a = (k0, v0)" by (cases a)
  have P0: "P v0" and rest: "list_all (\<lambda>(k, v). P v) kvs"
    using Cons.prems(1) a by simp_all
  have step: "\<And>k v. map_of (AList.update k0 v0 ds) k = Some v \<Longrightarrow> P v"
    using Cons.prems(2) P0 by (auto simp: update_conv' split: if_splits)
  show ?case
    using Cons.IH[OF rest step, of "AList.update k0 v0 ds"] Cons.prems(3) a by simp
qed

lemma delay_in_range_default: "delay_in_range (JNum 0.5)"
  by (simp add: delay_in_range_def)

lemma delay_inv_iff: "delay_inv w = (\<forall>s v. map_of (delays w) s = Some v \<longrightarrow> delay_in_range v)"
proof
  assume a: "delay_inv w"
  show "\<forall>s v. map_of (delays w) s = Some v \<longrightarrow> delay_in_range v"
  proof (intro allI impI)
    fix s v assume "map_of (delays w) s = Some v"
    then have "delay_of w s = v" by (simp add: delay_of_def)
    then show "delay_in_range v" using a by (auto simp: delay_inv_def)
  qed
next
  assume a: "\<forall>s v. map_of (delays w) s = Some v \<longrightarrow> delay_in_range v"
  have "delay_in_range (delay_of w s)" for s
    using a delay_in_range_default by (cases "map_of (delays w) s") (simp_all add: delay_of_def)
  then show "delay_inv w" by (simp add: delay_inv_def)
qed

lemma snd_load_limits:
  "snd (load_limits E w) = (case disk w of Missing \<Rightarrow> w | _ \<Rightarrow> snd (load_limits_body E w))"
  by (simp add: load_limits_def split: store_file.splits prod.splits)

lemma delay_inv_empty: "delays w = [] \<Longrightarrow> delay_inv w"
  by (simp add: delay_inv_iff)

lemma delay_inv_record_request:
  assumes "delay_inv w"
  shows "delay_inv (snd (record_request E s b w))"
proof -
  from assms have "delay_in_range (delay_of w s)" by (simp add: delay_inv_def)
  then obtain d where d: "as_number (delay_of w s) = Some d" "0.5 \<le> d" "d \<le> 30"
    by (auto simp: delay_in_range_def split: option.splits)
  have "delay_in_range (delay_of (snd (record_request E s b w)) t)" for t
  proof (cases "t = s")
    case True
    show ?thesis
    proof (cases b)
      case True
      with \<open>t = s\<close> d show ?thesis
        by (simp add: delay_of_rr_True[OF d(1)] delay_in_range_def min_def)
    next
      case False
      with \<open>t = s\<close> d show ?thesis
        by (simp add: delay_of_rr_False[OF d(1)] delay_in_range_def max_def)
    qed
  next
    case False
    then have "delay_of (snd (record_request E s b w)) t = delay_of w t"
      by (intro delay_of_rr_other) simp
    then show ?thesis using assms by (simp add: delay_inv_def)
  qed
  then show ?thesis by (simp add: delay_inv_def)
qed

lemma delay_inv_record_requests:
  "delay_inv w \<Longrightarrow> delay_inv (record_requests E cs w)"
  unfolding record_requests_def
  by (induction cs arbitrary: w) (auto simp: delay_inv_record_request)

lemma delay_inv_load_document:
  assumes "stored_delays_in_range j" "delay_inv w"
  shows "delay_inv (snd (load_document E j w))"
proof (cases j)
  case (JObj mem)
  show ?thesis
  proof (cases "json_items (case map_of mem ''limits'' of Some v \<Rightarrow> v | None \<Rightarrow> JObj [])")
    case (Inl e)
    then show ?thesis using assms(2) JObj by (simp add: load_document_def json_get_def)
  next
    case (Inr items)
    obtain r w1 where l: "load_entries E items w = (r, w1)" by (cases "load_entries E items w")
    have w1: "delays w1 = delays w" using load_entries_delays[of E items w] l by simp
    then have inv1: "delay_inv w1" using assms(2) by (simp add: delay_inv_iff)
    show ?thesis
    proof (cases r)
      case (Inl e)
      then show ?thesis using JObj Inr l inv1 by (simp add: load_document_def json_get_def)
    next
      case r: (Inr u)
      show ?thesis
      proof (cases "map_of mem ''delays''")
        case None
        then show ?thesis using JObj Inr l r inv1
          by (simp add: load_document_def json_get_def update_delays_def)
      next
        case (Some dv)
        with assms(1) JObj obtain ds where ds: "dv = JObj ds"
          "list_all (\<lambda>(k, v). delay_in_range v) ds"
          by (auto simp: stored_delays_in_range_def split: json.splits)
        have "delay_inv (w1\<lparr>delays := fold (\<lambda>(k, v). AList.update k v) ds (delays w1)\<rparr>)"
          unfolding delay_inv_iff
        proof (intro allI impI)
          fix s v
          assume "map_of (delays (w1\<lparr>delays := fold (\<lambda>(k, v). AList.update k v) ds (delays w1)\<rparr>)) s = Some v"
          then have "map_of (fold (\<lambda>(k, v). AList.update k v) ds (delays w1)) s = Some v" by simp
          moreover have "\<And>k v. map_of (delays w1) k = Some v \<Longrightarrow> delay_in_range v"
            using inv1 by (simp add: delay_inv_iff)
          ultimately show "delay_in_range v"
            using fold_update_values[OF ds(2), of "delays w1" s v] by blast
        qed
        then show ?thesis using JObj Inr l r Some ds
          by (simp add: load_document_def json_get_def update_delays_def)
      qed
    qed
  qed
qed (simp_all add: load_document_def json_get_def assms(2))

lemma delay_inv_init:
  assumes "disk w = Missing \<or> disk w = Garbage \<or> (\<exists>j. disk w = Parsed j \<and> stored_delays_in_range j)"
  shows "delay_inv (snd (RateLimiter_init E w))"
proof -
  let ?w0 = "w\<lparr>limits := [], delays := [], last_request := []\<rparr>"
  have e: "delay_inv ?w0" by (simp add: delay_inv_empty)
  show ?thesis
  proof (cases "disk w")
    case Missing
    then show ?thesis using e by (simp add: RateLimiter_init_def snd_load_limits)
  next
    case Garbage
    then show ?thesis using e
      by (simp add: RateLimiter_init_def snd_load_limits load_limits_body_def)
  next
    case (Parsed j)
    with assms have "stored_delays_in_range j" by simp
    then have "delay_inv (snd (load_document E j ?w0))"
      using e by (rule delay_inv_load_document)
    then show ?thesis using Parsed
      by (simp add: RateLimiter_init_def snd_load_limits load_limits_body_def)
  qed
qed

text \<open>
  Claim C1, as amended. The invariant \<open>0.5 \<le> delay[s] \<le> 30\<close> for every service \<open>s\<close>
  holds in the default state; \<^verbatim>\<open>record_request\<close> with either flag, and so any sequence
  of such calls, keeps it once it holds; and the constructor establishes it when the
  backing file is missing or unparseable, or holds a document whose \<^verbatim>\<open>delays\<close> member
  is absent or an object of numbers that are all between 0.5 and 30. (The constructor
  copies the stored delays as they are, so other stored values break it.)
\<close>

theorem delay_invariant:
  "delay_inv fresh
   \<and> (delay_inv w \<longrightarrow> delay_inv (snd (record_request E s b w)))
   \<and> (delay_inv w \<longrightarrow> delay_inv (record_requests E cs w))
   \<and> (disk w = Missing \<or> disk w = Garbage \<longrightarrow> delay_inv (snd (RateLimiter_init E w)))
   \<and> (disk w = Parsed j \<and> stored_delays_in_range j \<longrightarrow> delay_inv (snd (RateLimiter_init E w)))"
  using delay_inv_init[of w E]
  by (auto simp: delay_inv_empty fresh_def delay_inv_record_request delay_inv_record_requests)

theorem delay_invariant_counterexample:
  "delay_of (snd (RateLimiter_init env0 (fresh\<lparr>disk := Parsed store_slow\<rparr>))) ''x'' = JNum 100
   \<and> \<not> delay_inv (snd (RateLimiter_init env0 (fresh\<lparr>disk := Parsed store_slow\<rparr>)))
   \<and> delay_of (snd (record_request env0 ''x'' False
        (snd (RateLimiter_init env0 (fresh\<lparr>disk := Parsed store_slow\<rparr>))))) ''x'' = JNum 90"
proof -
  let ?W = "snd (RateLimiter_init env0 (fresh\<lparr>disk := Parsed store_slow\<rparr>))"
  have 1: "delay_of ?W ''x'' = JNum 100"
    by (simp add: RateLimiter_init_def load_limits_def load_limits_body_def load_document_def
        json_get_def json_items_def update_delays_def store_slow_def fresh_def delay_of_def)
  then have 2: "\<not> delay_inv ?W"
    by (auto simp: delay_inv_def delay_in_range_def intro!: exI[of _ "''x''"])
  have "as_number (delay_of ?W ''x'') = Some 100" using 1 by simp
  then have 3: "delay_of (snd (record_request env0 ''x'' False ?W)) ''x'' = JNum (max (100 * 0.9) 0.5)"
    by (rule delay_of_rr_False)
  show ?thesis using 1 2 3 by simp
qed

theorem delay_invariant_witness:
  "disk (fresh\<lparr>disk := Parsed store_ok\<rparr>) = Parsed store_ok
   \<and> stored_delays_in_range store_ok
   \<and> delay_inv (snd (RateLimiter_init env0 (fresh\<lparr>disk := Parsed store_ok\<rparr>)))
   \<and> disk (fresh\<lparr>disk := Garbage\<rparr>) = Garbage
   \<and> delay_inv (snd (RateLimiter_init env0 (fresh\<lparr>disk := Garbage\<rparr>)))
   \<and> delay_inv (snd (record_request env0 ''x'' True
        (snd (RateLimiter_init env0 (fresh\<lparr>disk := Parsed store_ok\<rparr>)))))
   \<and> delay_inv (record_requests env0 [(''x'', True), (''z'', True), (''x'', False)]
        (snd (RateLimiter_init env0 (fresh\<lparr>disk := Parsed store_ok\<rparr>))))
   \<and> delay_of (record_requests env0 [(''x'', True), (''z'', True), (''x'', False)]
        (snd (RateLimiter_init env0 (fresh\<lparr>disk := Parsed store_ok\<rparr>)))) ''x'' = JNum 3.6"
proof -
  let ?w = "fresh\<lparr>disk := Parsed store_ok\<rparr>"
  let ?g = "fresh\<lparr>disk := Garbage\<rparr>"
  let ?cs = "[(''x'', True), (''z'', True), (''x'', False)]"
  have s: "stored_delays_in_range store_ok"
    by (simp add: stored_delays_in_range_def store_ok_def delay_in_range_def)
  have d: "disk ?w = Parsed store_ok" and dg: "disk ?g = Garbage" by simp_all
  have i: "delay_inv (snd (RateLimiter_init env0 ?w))"
    using delay_invariant[of ?w env0 "''x''" True ?cs store_ok] s d by blast
  have g: "delay_inv (snd (RateLimiter_init env0 ?g))"
    using delay_invariant[of ?g env0 "''x''" True ?cs store_ok] dg by blast
  have r1: "delay_inv (snd (record_request env0 ''x'' True (snd (RateLimiter_init env0 ?w))))"
    using delay_invariant[of "snd (RateLimiter_init env0 ?w)" env0 "''x''" True ?cs store_ok] i
    by blast
  have r: "delay_inv (record_requests env0 ?cs (snd (RateLimiter_init env0 ?w)))"
    using delay_invariant[of "snd (RateLimiter_init env0 ?w)" env0 "''x''" True ?cs store_ok] i
    by blast
  have v: "delay_of (record_requests env0 ?cs (snd (RateLimiter_init env0 ?w))) ''x'' = JNum 3.6"
    by (simp add: RateLimiter_init_def load_limits_def load_limits_body_def load_document_def
        json_get_def json_items_def update_delays_def store_ok_def fresh_def delay_of_def
        load_entry_def fromisoformat_json_def env0_def now_def Let_def record_requests_def
        record_request_def delays_getitem_def limits_getitem_def save_limits_def
        save_limits_body_def is_ValueError_def)
  show ?thesis using s d dg i g r1 r v by simp
qed

section \<open>Claims about the classification helper\<close>

lemma remaining_loop_iff:
  "remaining_loop E r hs =
     list_ex (\<lambda>h. case headers_get r h of None \<Rightarrow> False | Some v \<Rightarrow> py_int E v = Some 0) hs"
  by (induction hs) (auto split: option.splits)

text \<open>
  Claim C7, as amended. \<^verbatim>\<open>check_rate_limit\<close> of \<^verbatim>\<open>navarro.py\<close> is true exactly when the
  status is 429, or a \<^verbatim>\<open>retry-after\<close> header is present, or one of the headers
  \<^verbatim>\<open>x-ratelimit-remaining\<close> and \<^verbatim>\<open>x-rate-limit-remaining\<close> is present and reads as the
  integer 0, or the lower-cased body contains one of its three phrases.
  \<^verbatim>\<open>check_rate_limit\<close> of \<^verbatim>\<open>navarro_pw.py\<close> is given the page content only and is true
  exactly when the lower-cased content contains one of its seven phrases; it agrees with
  the specification's helper, taken without headers, on a response whose status is not
  429.
\<close>

theorem check_rate_limit_characterised:
  "check_rate_limit E r = spec_throttled E [''retry-after''] remaining_headers rate_limit_patterns r
   \<and> check_rate_limit_pw content
       = list_ex (\<lambda>p. contains p (lower content)) rate_limit_patterns_pw
   \<and> (status_code r \<noteq> 429 \<longrightarrow>
        check_rate_limit_pw (text' r) = spec_throttled E [] [] rate_limit_patterns_pw r)"
proof -
  have 1: "check_rate_limit E r
             = spec_throttled E [''retry-after''] remaining_headers rate_limit_patterns r"
    by (auto simp: check_rate_limit_def spec_throttled_def remaining_loop_iff)
  have 2: "check_rate_limit_pw c = list_ex (\<lambda>p. contains p (lower c)) rate_limit_patterns_pw" for c
    by (cases c) (simp_all add: check_rate_limit_pw_def rate_limit_patterns_pw_def lower_def)
  have 3: "check_rate_limit_pw (text' r) = spec_throttled E [] [] rate_limit_patterns_pw r"
    if "status_code r \<noteq> 429"
    using that 2[of "text' r"] by (simp add: spec_throttled_def)
  show ?thesis using 1 2 3 by blast
qed

theorem check_rate_limit_characterised_counterexample:
  "\<not> check_rate_limit_pw (text' r429)
   \<and> spec_throttled env0 [''retry-after''] remaining_headers rate_limit_patterns_pw r429
   \<and> check_rate_limit env0 r429"
  by (simp add: check_rate_limit_pw_def check_rate_limit_def spec_throttled_def r429_def
      rate_limit_patterns_pw_def lower_def lower_char_def)

theorem check_rate_limit_characterised_witness:
  "status_code r200 \<noteq> 429
   \<and> check_rate_limit_pw (text' r200)
   \<and> spec_throttled env0 [] [] rate_limit_patterns_pw r200
   \<and> check_rate_limit env0 r200"
proof -
  have s: "status_code r200 \<noteq> 429" by (simp add: r200_def)
  have p: "check_rate_limit_pw (text' r200)"
    by (simp add: check_rate_limit_pw_def r200_def rate_limit_patterns_pw_def lower_def
        lower_char_def)
  have c: "check_rate_limit env0 r200"
    by (simp add: check_rate_limit_def r200_def rate_limit_patterns_def lower_def
        lower_char_def)
  show ?thesis
    using check_rate_limit_characterised[of env0 r200 "text' r200"] s p c by simp
qed

section \<open>Claims about the probes\<close>







section \<open>Claims about the dispatcher\<close>




























section \<open>Claims about persistence\<close>
























end
